theory Spec2Isabelle
  imports
    Main
    "HOL-Library.Word"
    "HOL-Library.Char_ord"
    "HOL-Library.List_Lexorder"
    "HOL-Library.Multiset"
begin

section \<open>Data model\<close>

text \<open>
  A Go slice is either \<open>nil\<close> or a (possibly empty) sequence of elements, and
  \<open>addressesEqual\<close> tells the two apart.  A slice is therefore an optional list:
  \<open>None\<close> is the \<open>nil\<close> slice, \<open>Some []\<close> is what \<open>make([]T, 0, n)\<close> returns.
  \<open>len\<close> and \<open>range\<close> treat \<open>nil\<close> as empty.
\<close>

type_synonym 'a slice = "'a list option"

definition elems :: "'a slice \<Rightarrow> 'a list" where
  "elems s = (case s of None \<Rightarrow> [] | Some xs \<Rightarrow> xs)"

definition len :: "'a slice \<Rightarrow> nat" where
  "len s = length (elems s)"

text \<open>
  \<open>resolver.Address\<close>: \<open>query\<close> only ever sets the field \<open>Addr\<close>, and
  \<open>addressesEqual\<close> only ever reads it.
\<close>

record Address =
  Addr :: string

text \<open>
  \<open>consul.ServiceEntry\<close>, reduced to the fields the resolver reads:
  \<open>e.Node.Address\<close>, \<open>e.Service.Address\<close>, \<open>e.Service.Port\<close> and \<open>e.Checks\<close>.
  The entries, their \<open>Node\<close> and their \<open>Service\<close> are pointers in Go; the model takes
  them to be non-nil, as the Consul client delivers them.  The type of the health checks
  is left open: the resolver only hands them to \<open>AggregatedStatus\<close>, a method of the
  Consul client library, which every function below that needs it takes as the
  parameter \<open>aggregatedStatus\<close>.
\<close>

record 'c ServiceEntry =
  Node_Address :: string
  Service_Address :: string
  Service_Port :: int
  Checks :: 'c

definition HealthPassing :: string where
  "HealthPassing = ''passing''"

datatype healthFilter =
    healthFilterUndefined
  | healthFilterOnlyHealthy
  | healthFilterFallbackToUnhealthy


section \<open>Health filter\<close>

text \<open>
  \<open>filterPreferOnlyHealthy\<close>: \<open>healthy\<close> collects, in order, the entries whose
  aggregated status is passing; it is returned when it is not empty, otherwise the
  argument itself is returned (so a \<open>nil\<close> argument comes back as \<open>nil\<close>).
\<close>

definition filterPreferOnlyHealthy ::
    "('c \<Rightarrow> string) \<Rightarrow> 'c ServiceEntry slice \<Rightarrow> 'c ServiceEntry slice" where
  "filterPreferOnlyHealthy aggregatedStatus entries =
     (let healthy = filter (\<lambda>e. aggregatedStatus (Checks e) = HealthPassing) (elems entries)
      in if length healthy \<noteq> 0 then Some healthy else entries)"


section \<open>Address set diff\<close>

text \<open>
  The loop \<open>for i := range a\<close> of \<open>addressesEqual\<close>, entered only when both slices
  have the same length: the first position whose \<open>Addr\<close> differs decides.
\<close>

fun addrs_pairwise_equal :: "Address list \<Rightarrow> Address list \<Rightarrow> bool" where
  "addrs_pairwise_equal (x # xs) (y # ys) =
     (if Addr x \<noteq> Addr y then False else addrs_pairwise_equal xs ys)"
| "addrs_pairwise_equal _ _ = True"

definition addressesEqual :: "Address slice \<Rightarrow> Address slice \<Rightarrow> bool" where
  "addressesEqual a b =
     (if a = None \<and> b \<noteq> None then False
      else if a \<noteq> None \<and> b = None then False
      else if len a \<noteq> len b then False
      else addrs_pairwise_equal (elems a) (elems b))"


section \<open>One query\<close>

text \<open>
  \<open>fmt.Sprint\<close> of an \<open>int\<close> (decimal, with a sign for negative numbers) and
  \<open>net.JoinHostPort\<close> (a host that contains a colon is put in brackets).
\<close>

function digits10 :: "nat \<Rightarrow> string" where
  "digits10 n =
     (if n < 10 then [''0123456789'' ! n]
      else digits10 (n div 10) @ [''0123456789'' ! (n mod 10)])"
  by pat_completeness auto
termination
  by (relation "measure (\<lambda>n. n)") auto

declare digits10.simps [simp del]

definition Sprint :: "int \<Rightarrow> string" where
  "Sprint i = (if i < 0 then CHR ''-'' # digits10 (nat (- i)) else digits10 (nat i))"

definition JoinHostPort :: "string \<Rightarrow> string \<Rightarrow> string" where
  "JoinHostPort host port =
     (if CHR '':'' \<in> set host then ''['' @ host @ '']:'' @ port
      else host @ '':'' @ port)"

text \<open>
  The error of a Consul query.  The watcher asks one thing of it,
  \<open>errors.Is(err, context.Canceled)\<close>: \<open>ContextCanceled\<close> stands for the errors for
  which that holds, \<open>QueryFailed\<close> (with its message) for all others.
\<close>

datatype query_error = ContextCanceled | QueryFailed string

text \<open>
  What \<open>ServiceMultipleTags\<close> returns: an error, or the entries together with
  \<open>meta.LastIndex\<close>, a \<open>uint64\<close>.
\<close>

type_synonym 'c consul_response = "query_error + ('c ServiceEntry slice \<times> 64 word)"

text \<open>
  The struct \<open>consulResolver\<close>.  \<open>ctxDone\<close> says whether \<open>ctx\<close> has been cancelled;
  \<open>resolveNow\<close> is the number of signals buffered in the channel of capacity one;
  \<open>wgStop\<close> is the counter of the wait group.  \<open>clientConn\<close> and \<open>consulHealth\<close> are
  the environment: the calls into the former are the events of the watcher, the
  answers of the latter are its input.
\<close>

record consulResolver =
  ctxDone :: bool
  wgStop :: nat
  resolveNow :: nat
  tags :: "string slice"
  service :: string
  healthFilter :: healthFilter

definition resolveNow_cap :: nat where
  "resolveNow_cap = 1"

text \<open>The address of one entry: the service address, or the node address when that is empty.\<close>

definition entry_address :: "'c ServiceEntry \<Rightarrow> Address" where
  "entry_address e =
     (let addr = Service_Address e;
          addr = (if addr = [] then Node_Address e else addr)
      in \<lparr>Addr = JoinHostPort addr (Sprint (Service_Port e))\<rparr>)"

text \<open>
  \<open>query\<close>, given what \<open>ServiceMultipleTags\<close> answered.  Like the Go function it
  returns three values: the addresses, the index and the error (\<open>None\<close> is \<open>nil\<close>).
\<close>

definition query ::
    "('c \<Rightarrow> string) \<Rightarrow> consulResolver \<Rightarrow> 'c consul_response
       \<Rightarrow> Address slice \<times> 64 word \<times> query_error option" where
  "query aggregatedStatus c response =
     (case response of
        Inl err \<Rightarrow> (None, 0, Some err)
      | Inr (entries, LastIndex) \<Rightarrow>
          (let entries = (if healthFilter c = healthFilterFallbackToUnhealthy
                          then filterPreferOnlyHealthy aggregatedStatus entries
                          else entries);
               result = map entry_address (elems entries)
           in (Some result, LastIndex, None)))"


section \<open>The watcher\<close>

text \<open>
  The local state of the goroutine that runs \<open>watcher\<close>: the two variables that live
  across iterations and the place where it is blocked, in the query of the inner loop
  (\<open>InQuery\<close>), in the \<open>select\<close> of the outer loop (\<open>InSelect\<close>), or nowhere
  because it has returned (\<open>Exited\<close>).
\<close>

datatype pc = InQuery | InSelect | Exited

record watcher =
  lastReportedAddresses :: "Address slice"
  WaitIndex :: "64 word"
  at :: pc

definition watcher_init :: watcher where
  "watcher_init = \<lparr>lastReportedAddresses = None, WaitIndex = 0, at = InQuery\<rparr>"

text \<open>What the watcher does that the outside can see; durations are nanoseconds.\<close>

datatype event =
    UpdateState "Address slice"
  | ReportError query_error
  | Sleep int

definition Millisecond :: int where
  "Millisecond = 1000000"

text \<open>
  \<open>sort.Slice\<close> with the order \<open>addresses[i].Addr < addresses[j].Addr\<close>, the bytewise
  order of Go strings.  A \<open>nil\<close> slice stays \<open>nil\<close>.
\<close>

definition sortSlice :: "Address slice \<Rightarrow> Address slice" where
  "sortSlice s = map_option (sort_key Addr) s"

text \<open>
  One pass through the body of the inner loop: \<open>response\<close> is the answer to the query,
  \<open>since\<close> the value of \<open>time.Since(queryStartTime)\<close> where the body reads it.
  The result is the new local state and the events of the pass.  The error that
  \<open>UpdateState\<close> returns is only logged, so it is no input.
\<close>

definition watcher_iteration ::
    "('c \<Rightarrow> string) \<Rightarrow> consulResolver \<Rightarrow> watcher \<Rightarrow> 'c consul_response \<Rightarrow> int
       \<Rightarrow> watcher \<times> event list" where
  "watcher_iteration aggregatedStatus c w response since =
     (let lastWaitIndex = WaitIndex w;
          (addresses, index, err) = query aggregatedStatus c response;
          w = w\<lparr>WaitIndex := index\<rparr>
      in case err of
           Some e \<Rightarrow>
             (if e = ContextCanceled then (w\<lparr>at := Exited\<rparr>, [])
              else (w\<lparr>at := InSelect\<rparr>, [ReportError e]))
         | None \<Rightarrow>
             (if WaitIndex w < lastWaitIndex then (w\<lparr>WaitIndex := 0\<rparr>, [])
              else
                (let addresses = sortSlice addresses
                 in if addressesEqual addresses (lastReportedAddresses w)
                    then (w, if lastWaitIndex = WaitIndex w \<and> since < 50 * Millisecond
                             then [Sleep (50 * Millisecond)] else [])
                    else (w\<lparr>lastReportedAddresses := addresses\<rparr>, [UpdateState addresses]))))"

text \<open>\<open>ResolveNow\<close>: a send that is dropped when the buffer of the channel is full.\<close>

definition ResolveNow :: "consulResolver \<Rightarrow> consulResolver" where
  "ResolveNow c =
     (if resolveNow c < resolveNow_cap then c\<lparr>resolveNow := resolveNow c + 1\<rparr> else c)"

text \<open>
  The resolver and its goroutine, and what can happen to them: the outstanding query
  returns; the \<open>select\<close> takes one of its two cases (each possible only when its channel
  is ready); another goroutine calls \<open>ResolveNow\<close> or cancels the context.  \<open>step\<close>
  is \<open>None\<close> when the action cannot happen in the state.  A watcher that returns runs
  its deferred \<open>wgStop.Done()\<close>.
\<close>

record system =
  res :: consulResolver
  watch :: watcher

datatype 'c action =
    QueryReturns "'c consul_response" int
  | SelectCtxDone
  | SelectResolveNow
  | CallResolveNow
  | CallCancel

definition wgStop_Done :: "consulResolver \<Rightarrow> consulResolver" where
  "wgStop_Done c = c\<lparr>wgStop := wgStop c - 1\<rparr>"

definition step :: "('c \<Rightarrow> string) \<Rightarrow> system \<Rightarrow> 'c action \<Rightarrow> (system \<times> event list) option" where
  "step aggregatedStatus s a =
     (case a of
        QueryReturns response since \<Rightarrow>
          (if at (watch s) = InQuery
           then (let (w, evs) = watcher_iteration aggregatedStatus (res s) (watch s) response since
                 in Some (\<lparr>res = (if at w = Exited then wgStop_Done (res s) else res s),
                            watch = w\<rparr>, evs))
           else None)
      | SelectCtxDone \<Rightarrow>
          (if at (watch s) = InSelect \<and> ctxDone (res s)
           then Some (\<lparr>res = wgStop_Done (res s), watch = (watch s)\<lparr>at := Exited\<rparr>\<rparr>, [])
           else None)
      | SelectResolveNow \<Rightarrow>
          (if at (watch s) = InSelect \<and> 0 < resolveNow (res s)
           then Some (\<lparr>res = (res s)\<lparr>resolveNow := resolveNow (res s) - 1\<rparr>,
                        watch = (watch s)\<lparr>at := InQuery\<rparr>\<rparr>, [])
           else None)
      | CallResolveNow \<Rightarrow> Some (s\<lparr>res := ResolveNow (res s)\<rparr>, [])
      | CallCancel \<Rightarrow> Some (s\<lparr>res := (res s)\<lparr>ctxDone := True\<rparr>\<rparr>, []))"

fun run :: "('c \<Rightarrow> string) \<Rightarrow> system \<Rightarrow> 'c action list \<Rightarrow> (system \<times> event list) option" where
  "run aggregatedStatus s [] = Some (s, [])"
| "run aggregatedStatus s (a # as) =
     (case step aggregatedStatus s a of
        None \<Rightarrow> None
      | Some (s', evs) \<Rightarrow>
          (case run aggregatedStatus s' as of
             None \<Rightarrow> None
           | Some (s'', evs') \<Rightarrow> Some (s'', evs @ evs')))"

text \<open>\<open>start\<close>: the wait group counts the goroutine, which begins with the inner loop.\<close>

definition start :: "consulResolver \<Rightarrow> system" where
  "start c = \<lparr>res = c\<lparr>wgStop := wgStop c + 1\<rparr>, watch = watcher_init\<rparr>"


section \<open>The builder\<close>

text \<open>
  The part of \<open>url.URL\<close> that \<open>parseEndpoint\<close> and \<open>Build\<close> read.  \<open>Query\<close> is the
  map that \<open>url.Query()\<close> returns, as the list of its keys with their values in the
  order in which the \<open>range\<close> of \<open>extractOpts\<close> happens to visit them (Go leaves that
  order open, so theorems are stated for every order).
\<close>

type_synonym Values = "(string \<times> string list) list"

record URL =
  Host :: string
  Path :: string
  Query :: Values

datatype build_error =
    UnsupportedScheme string
  | UnsupportedHealth string
  | UnsupportedParameter string
  | PathMissing
  | CreateClientFailed string

text \<open>The named results of \<open>extractOpts\<close>; \<open>no_opts\<close> holds their zero values.\<close>

record endpoint_opts =
  opt_scheme :: string
  opt_tags :: "string slice"
  opt_health :: healthFilter
  opt_token :: string
  opt_dc :: string

definition no_opts :: endpoint_opts where
  "no_opts = \<lparr>opt_scheme = [], opt_tags = None, opt_health = healthFilterUndefined,
               opt_token = [], opt_dc = []\<rparr>"

text \<open>
  \<open>strings.Split(s, ",")\<close>: the pieces of \<open>s\<close> between the separators.  The result is
  never empty and never \<open>nil\<close>: the empty string has the one piece \<open>""\<close>.
\<close>

fun Split :: "string \<Rightarrow> char \<Rightarrow> string list" where
  "Split [] sep = [[]]"
| "Split (c # cs) sep =
     (if c = sep then [] # Split cs sep
      else (case Split cs sep of
              [] \<Rightarrow> [[c]]
            | piece # pieces \<Rightarrow> (c # piece) # pieces))"

text \<open>\<open>strings.TrimPrefix(s, "/")\<close>.\<close>

definition TrimPrefix_slash :: "string \<Rightarrow> string" where
  "TrimPrefix_slash s = (case s of c # cs \<Rightarrow> (if c = CHR ''/'' then cs else s) | [] \<Rightarrow> s)"

text \<open>
  The loop of \<open>extractOpts\<close> over the keys still to visit, with the named results so
  far.  \<open>toLower\<close> stands for \<open>strings.ToLower\<close>, a function of the Go library.
\<close>

fun extractOpts_range ::
    "(string \<Rightarrow> string) \<Rightarrow> endpoint_opts \<Rightarrow> Values \<Rightarrow> build_error + endpoint_opts" where
  "extractOpts_range toLower r [] = Inr r"
| "extractOpts_range toLower r ((key, values) # rest) =
     (if length values = 0 then extractOpts_range toLower r rest
      else
        (let value = last values;
             k = toLower key
         in if k = ''scheme'' then
              (let scheme = toLower value
               in if scheme \<noteq> ''http'' \<and> scheme \<noteq> ''https'' then Inl (UnsupportedScheme value)
                  else extractOpts_range toLower (r\<lparr>opt_scheme := scheme\<rparr>) rest)
            else if k = ''tags'' then
              extractOpts_range toLower (r\<lparr>opt_tags := Some (Split value CHR '','')\<rparr>) rest
            else if k = ''dc'' then
              extractOpts_range toLower (r\<lparr>opt_dc := value\<rparr>) rest
            else if k = ''health'' then
              (let v = toLower value
               in if v = ''healthy'' then
                    extractOpts_range toLower (r\<lparr>opt_health := healthFilterOnlyHealthy\<rparr>) rest
                  else if v = ''fallbacktounhealthy'' then
                    extractOpts_range toLower
                      (r\<lparr>opt_health := healthFilterFallbackToUnhealthy\<rparr>) rest
                  else Inl (UnsupportedHealth value))
            else if k = ''token'' then
              extractOpts_range toLower (r\<lparr>opt_token := value\<rparr>) rest
            else Inl (UnsupportedParameter key)))"

definition extractOpts :: "(string \<Rightarrow> string) \<Rightarrow> Values \<Rightarrow> build_error + endpoint_opts" where
  "extractOpts toLower opts = extractOpts_range toLower no_opts opts"

definition parseEndpoint ::
    "(string \<Rightarrow> string) \<Rightarrow> URL \<Rightarrow> build_error + (string \<times> endpoint_opts)" where
  "parseEndpoint toLower url =
     (let serviceName = TrimPrefix_slash (Path url)
      in if serviceName = [] then Inl PathMissing
         else
           (case extractOpts toLower (Query url) of
              Inl err \<Rightarrow> Inl err
            | Inr r \<Rightarrow>
                Inr (serviceName,
                     if opt_health r = healthFilterUndefined
                     then r\<lparr>opt_health := healthFilterOnlyHealthy\<rparr> else r)))"

text \<open>
  \<open>consul.Config\<close> as \<open>newConsulResolver\<close> fills it in.  \<open>createHealthClient\<close> stands
  for \<open>consulCreateHealthClientFn\<close>, which makes the client of the Consul library:
  here it returns the message of its error, or \<open>None\<close>.
\<close>

record Config =
  Config_Token :: string
  Config_Scheme :: string
  Config_Address :: string
  Config_Datacenter :: string
  Config_WaitTime :: int

definition newConsulResolver ::
    "(Config \<Rightarrow> string option) \<Rightarrow> string \<Rightarrow> string \<Rightarrow> string \<Rightarrow> string slice
       \<Rightarrow> healthFilter \<Rightarrow> string \<Rightarrow> string \<Rightarrow> build_error + consulResolver" where
  "newConsulResolver createHealthClient scheme consulAddr consulService tgs hf token dc =
     (let cfg = \<lparr>Config_Token = token, Config_Scheme = scheme, Config_Address = consulAddr,
                 Config_Datacenter = dc, Config_WaitTime = 10 * 60 * 1000 * Millisecond\<rparr>
      in case createHealthClient cfg of
           Some err \<Rightarrow> Inl (CreateClientFailed err)
         | None \<Rightarrow>
             Inr \<lparr>ctxDone = False, wgStop = 0, resolveNow = 0, tags = tgs,
                  service = consulService, healthFilter = hf\<rparr>)"

text \<open>
  \<open>Build\<close>: an error and no resolver, or the resolver with its watcher started.
\<close>

definition Build ::
    "(string \<Rightarrow> string) \<Rightarrow> (Config \<Rightarrow> string option) \<Rightarrow> URL \<Rightarrow> build_error + system" where
  "Build toLower createHealthClient target_URL =
     (case parseEndpoint toLower target_URL of
        Inl err \<Rightarrow> Inl err
      | Inr (serviceName, r) \<Rightarrow>
          (case newConsulResolver createHealthClient (opt_scheme r) (Host target_URL)
                  serviceName (opt_tags r) (opt_health r) (opt_token r) (opt_dc r) of
             Inl err \<Rightarrow> Inl err
           | Inr c \<Rightarrow> Inr (start c)))"

text \<open>
  \<open>strings.ToLower\<close> on strings of ASCII bytes, for running the builder on
  concrete URLs.
\<close>

definition ascii_lower :: "char \<Rightarrow> char" where
  "ascii_lower c =
     (if CHR ''A'' \<le> c \<and> c \<le> CHR ''Z'' then char_of (of_char c + (32 :: nat)) else c)"

definition ascii_ToLower :: "string \<Rightarrow> string" where
  "ascii_ToLower s = map ascii_lower s"


section \<open>Sample values\<close>

text \<open>
  A resolver in fallback mode, two instances of its service on two nodes, and a third
  entry that announces the service address of the first under another node.  The health
  checks of the samples are their aggregated status.
\<close>

definition sample_resolver :: consulResolver where
  "sample_resolver =
     \<lparr>ctxDone = False, wgStop = 0, resolveNow = 0, tags = None, service = ''web'',
      healthFilter = healthFilterFallbackToUnhealthy\<rparr>"

definition web1 :: "string ServiceEntry" where
  "web1 = \<lparr>Node_Address = ''10.0.0.1'', Service_Address = [], Service_Port = 8080,
            Checks = ''passing''\<rparr>"

definition web2 :: "string ServiceEntry" where
  "web2 = \<lparr>Node_Address = ''10.0.0.2'', Service_Address = [], Service_Port = 8080,
            Checks = ''passing''\<rparr>"

definition web1_again :: "string ServiceEntry" where
  "web1_again = \<lparr>Node_Address = ''10.0.0.3'', Service_Address = ''10.0.0.1'',
                  Service_Port = 8080, Checks = ''passing''\<rparr>"


section \<open>Properties of the health filter and of the address set diff\<close>

lemma addrs_pairwise_equal_iff:
  "length xs = length ys \<Longrightarrow>
     addrs_pairwise_equal xs ys \<longleftrightarrow> (\<forall>i < length xs. Addr (xs ! i) = Addr (ys ! i))"
proof (induction xs ys rule: list_induct2)
  case Nil
  show ?case by simp
next
  case (Cons x xs y ys)
  show ?case
    by (simp add: Cons.IH All_less_Suc2)
qed

lemma query_fallback_filters:
  "healthFilter c = healthFilterFallbackToUnhealthy \<Longrightarrow>
     query aggregatedStatus c (Inr (entries, index)) =
       (Some (map entry_address (elems (filterPreferOnlyHealthy aggregatedStatus entries))),
        index, None)"
  by (simp add: query_def)

text \<open>
  C2.  The health filter of the mode \<open>FallbackToUnhealthy\<close>: when at least one entry
  has the aggregated status passing, the result is exactly the passing entries, in
  their order; when no entry has, the result is the argument, unchanged.
\<close>

theorem filterPreferOnlyHealthy_fallback:
  "((\<exists>e \<in> set (elems entries). aggregatedStatus (Checks e) = HealthPassing) \<longrightarrow>
      filterPreferOnlyHealthy aggregatedStatus entries =
        Some (filter (\<lambda>e. aggregatedStatus (Checks e) = HealthPassing) (elems entries)))
   \<and> ((\<forall>e \<in> set (elems entries). aggregatedStatus (Checks e) \<noteq> HealthPassing) \<longrightarrow>
      filterPreferOnlyHealthy aggregatedStatus entries = entries)"
  by (auto simp: filterPreferOnlyHealthy_def Let_def filter_empty_conv)

theorem filterPreferOnlyHealthy_fallback_witness:
  "filterPreferOnlyHealthy (\<lambda>status. status)
      (Some [\<lparr>Node_Address = ''10.0.0.1'', Service_Address = [], Service_Port = 80,
               Checks = ''passing''\<rparr>,
             \<lparr>Node_Address = ''10.0.0.2'', Service_Address = [], Service_Port = 80,
               Checks = ''critical''\<rparr>])
     = Some [\<lparr>Node_Address = ''10.0.0.1'', Service_Address = [], Service_Port = 80,
               Checks = ''passing''\<rparr>]
   \<and> filterPreferOnlyHealthy (\<lambda>status. status)
      (Some [\<lparr>Node_Address = ''10.0.0.2'', Service_Address = [], Service_Port = 80,
               Checks = ''critical''\<rparr>])
     = Some [\<lparr>Node_Address = ''10.0.0.2'', Service_Address = [], Service_Port = 80,
               Checks = ''critical''\<rparr>]"
  using
    filterPreferOnlyHealthy_fallback
      [of "Some [\<lparr>Node_Address = ''10.0.0.1'', Service_Address = [], Service_Port = 80,
                   Checks = ''passing''\<rparr>,
                 \<lparr>Node_Address = ''10.0.0.2'', Service_Address = [], Service_Port = 80,
                   Checks = ''critical''\<rparr>]" "\<lambda>status. status"]
    filterPreferOnlyHealthy_fallback
      [of "Some [\<lparr>Node_Address = ''10.0.0.2'', Service_Address = [], Service_Port = 80,
                   Checks = ''critical''\<rparr>]" "\<lambda>status. status"]
  by (simp add: elems_def HealthPassing_def)

text \<open>
  C4, as the spec states it, fails: a \<open>nil\<close> list and an empty list that is not
  \<open>nil\<close> have the same length and agree at every position, and \<open>addressesEqual\<close>
  says they differ.
\<close>

theorem addressesEqual_nil_empty:
  "addressesEqual None (Some []) = False
   \<and> len (None :: Address slice) = len (Some [] :: Address slice)
   \<and> map Addr (elems None) = map Addr (elems (Some []))"
  by (simp add: addressesEqual_def len_def elems_def)

text \<open>
  C4, amended.  \<open>addressesEqual\<close> is true if and only if the two lists are both
  \<open>nil\<close> or both not \<open>nil\<close>, have the same length, and carry equal address strings
  at corresponding positions: the function itself tells \<open>nil\<close> from empty.
\<close>

theorem addressesEqual_iff:
  "addressesEqual a b \<longleftrightarrow>
     (a = None \<longleftrightarrow> b = None) \<and> len a = len b
     \<and> (\<forall>i < len a. Addr (elems a ! i) = Addr (elems b ! i))"
  by (auto simp: addressesEqual_def len_def addrs_pairwise_equal_iff)

theorem addressesEqual_iff_witness:
  "addressesEqual (Some [\<lparr>Addr = ''10.0.0.1:80''\<rparr>, \<lparr>Addr = ''10.0.0.2:80''\<rparr>])
                  (Some [\<lparr>Addr = ''10.0.0.1:80''\<rparr>, \<lparr>Addr = ''10.0.0.2:80''\<rparr>])
   \<and> \<not> addressesEqual (Some [\<lparr>Addr = ''10.0.0.1:80''\<rparr>, \<lparr>Addr = ''10.0.0.2:80''\<rparr>])
                      (Some [\<lparr>Addr = ''10.0.0.1:80''\<rparr>, \<lparr>Addr = ''10.0.0.3:80''\<rparr>])"
  using
    addressesEqual_iff
      [of "Some [\<lparr>Addr = ''10.0.0.1:80''\<rparr>, \<lparr>Addr = ''10.0.0.2:80''\<rparr>]"
          "Some [\<lparr>Addr = ''10.0.0.1:80''\<rparr>, \<lparr>Addr = ''10.0.0.2:80''\<rparr>]"]
    addressesEqual_iff
      [of "Some [\<lparr>Addr = ''10.0.0.1:80''\<rparr>, \<lparr>Addr = ''10.0.0.2:80''\<rparr>]"
          "Some [\<lparr>Addr = ''10.0.0.1:80''\<rparr>, \<lparr>Addr = ''10.0.0.3:80''\<rparr>]"]
  by (simp add: len_def elems_def All_less_Suc2)


section \<open>Properties of one pass of the watcher\<close>

lemma query_zero_entries:
  "len entries = 0 \<Longrightarrow>
     query aggregatedStatus c (Inr (entries, index)) = (Some [], index, None)"
  by (auto simp: query_def filterPreferOnlyHealthy_def len_def Let_def)

text \<open>
  C1.  The watcher that \<open>start\<close> launches has reported nothing yet.  When its first
  query succeeds with no entries (a \<open>nil\<close> or an empty list, in either health mode),
  the pass calls \<open>UpdateState\<close> exactly once, with the empty list that is not \<open>nil\<close>,
  and does nothing else; that list becomes the last reported snapshot.
\<close>

theorem first_report_empty:
  assumes "len entries = 0"
  shows "step aggregatedStatus (start c) (QueryReturns (Inr (entries, index)) since) =
           Some (\<lparr>res = res (start c),
                   watch = \<lparr>lastReportedAddresses = Some [], WaitIndex = index,
                            at = InQuery\<rparr>\<rparr>,
                 [UpdateState (Some [])])"
  using assms
  by (simp add: step_def start_def watcher_init_def watcher_iteration_def query_zero_entries
      sortSlice_def addressesEqual_def Let_def)

theorem first_report_empty_witness:
  "len (Some [] :: string ServiceEntry slice) = 0
   \<and> step (\<lambda>status. status) (start sample_resolver) (QueryReturns (Inr (Some [], 7)) 0) =
       Some (\<lparr>res = sample_resolver\<lparr>wgStop := 1\<rparr>,
               watch = \<lparr>lastReportedAddresses = Some [], WaitIndex = 7, at = InQuery\<rparr>\<rparr>,
             [UpdateState (Some [])])"
  using first_report_empty
    [of "Some [] :: string ServiceEntry slice" "\<lambda>status. status" sample_resolver 7 0]
  by (simp add: len_def elems_def start_def sample_resolver_def)

text \<open>
  C3, as the spec states it, fails.  The watcher compares the cursor of a query with the
  cursor it sent, and after a regression it sends zero.  Here three queries succeed with
  the cursors 50, 10 and 5: the second is a regression and resets the cursor; the third
  returns a cursor smaller than the second did, yet it is compared with zero, so the
  watcher reports its addresses and keeps the cursor 5.
\<close>

theorem regression_after_reset_reports:
  "run (\<lambda>status. status) (start sample_resolver)
      [QueryReturns (Inr (Some [web1], 50)) 0, QueryReturns (Inr (Some [web1], 10)) 0] =
     Some (\<lparr>res = sample_resolver\<lparr>wgStop := 1\<rparr>,
             watch = \<lparr>lastReportedAddresses = Some [\<lparr>Addr = ''10.0.0.1:8080''\<rparr>],
                      WaitIndex = 0, at = InQuery\<rparr>\<rparr>,
           [UpdateState (Some [\<lparr>Addr = ''10.0.0.1:8080''\<rparr>])])
   \<and> step (\<lambda>status. status)
        \<lparr>res = sample_resolver\<lparr>wgStop := 1\<rparr>,
         watch = \<lparr>lastReportedAddresses = Some [\<lparr>Addr = ''10.0.0.1:8080''\<rparr>],
                  WaitIndex = 0, at = InQuery\<rparr>\<rparr>
        (QueryReturns (Inr (Some [web1, web2], 5)) 0) =
     Some (\<lparr>res = sample_resolver\<lparr>wgStop := 1\<rparr>,
             watch = \<lparr>lastReportedAddresses =
                        Some [\<lparr>Addr = ''10.0.0.1:8080''\<rparr>, \<lparr>Addr = ''10.0.0.2:8080''\<rparr>],
                      WaitIndex = 5, at = InQuery\<rparr>\<rparr>,
           [UpdateState (Some [\<lparr>Addr = ''10.0.0.1:8080''\<rparr>, \<lparr>Addr = ''10.0.0.2:8080''\<rparr>])])"
  by (simp add: step_def start_def watcher_init_def watcher_iteration_def query_def
      filterPreferOnlyHealthy_def elems_def len_def HealthPassing_def entry_address_def
      JoinHostPort_def Sprint_def digits10.simps sortSlice_def addressesEqual_def Let_def
      sample_resolver_def web1_def web2_def Millisecond_def)

text \<open>
  C3, amended.  Take two consecutive successful queries of which the first was not
  itself handled as a regression (its cursor was not smaller than the one the watcher
  had sent).  When the second returns a strictly smaller cursor than the first, its pass
  produces no event, neither a report nor a sleep, sets the cursor to zero, and leaves
  the watcher at the next query of the inner loop.
\<close>

theorem cursor_regression_resets:
  assumes "at (watch s) = InQuery"
    and "\<not> index1 < WaitIndex (watch s)"
    and "index2 < index1"
    and "step aggregatedStatus s (QueryReturns (Inr (entries1, index1)) since1) = Some (s1, evs1)"
  shows "step aggregatedStatus s1 (QueryReturns (Inr (entries2, index2)) since2) =
           Some (s1\<lparr>watch := (watch s1)\<lparr>WaitIndex := 0\<rparr>\<rparr>, [])
         \<and> at (watch s1) = InQuery \<and> WaitIndex (watch s1) = index1"
proof -
  have s1: "at (watch s1) = InQuery \<and> WaitIndex (watch s1) = index1"
    using assms
    by (auto simp: step_def watcher_iteration_def query_def Let_def split: if_splits)
  then show ?thesis
    using assms(3) by (simp add: step_def watcher_iteration_def query_def Let_def)
qed

theorem cursor_regression_resets_witness:
  "step (\<lambda>status. status)
      \<lparr>res = sample_resolver\<lparr>wgStop := 1\<rparr>,
       watch = \<lparr>lastReportedAddresses = Some [], WaitIndex = 50, at = InQuery\<rparr>\<rparr>
      (QueryReturns (Inr (Some [web1], 10)) 0) =
     Some (\<lparr>res = sample_resolver\<lparr>wgStop := 1\<rparr>,
             watch = \<lparr>lastReportedAddresses = Some [], WaitIndex = 0, at = InQuery\<rparr>\<rparr>, [])"
proof -
  have first: "step (\<lambda>status. status) (start sample_resolver)
                 (QueryReturns (Inr (Some [] :: string ServiceEntry slice, 50)) 0) =
               Some (\<lparr>res = sample_resolver\<lparr>wgStop := 1\<rparr>,
                       watch = \<lparr>lastReportedAddresses = Some [], WaitIndex = 50,
                                at = InQuery\<rparr>\<rparr>,
                     [UpdateState (Some [])])"
    by (simp add: step_def start_def watcher_init_def watcher_iteration_def query_def
        filterPreferOnlyHealthy_def elems_def len_def sortSlice_def addressesEqual_def
        Let_def sample_resolver_def)
  have started: "at (watch (start sample_resolver)) = InQuery"
    and fresh: "\<not> (50 :: 64 word) < WaitIndex (watch (start sample_resolver))"
    by (simp_all add: start_def watcher_init_def)
  have smaller: "(10 :: 64 word) < 50"
    by simp
  from cursor_regression_resets [OF started fresh smaller first, of "Some [web1]" 0]
  show ?thesis
    by (simp add: sample_resolver_def)
qed

text \<open>
  C6.  A successful query whose sorted addresses equal the last reported snapshot,
  whose cursor is the one the watcher sent, and which is followed by a reading of
  \<open>time.Since(queryStartTime)\<close> below 50 milliseconds: the pass calls
  \<open>time.Sleep(50 * time.Millisecond)\<close>, which is its only event, changes nothing,
  and only then comes to the next query.  So when such a response is repeated, each
  time with a reading below 50 milliseconds, there is one sleep of 50 milliseconds
  after every one of the queries.
\<close>

theorem fast_unchanged_response_sleeps:
  assumes "at (watch s) = InQuery"
    and "addressesEqual
           (sortSlice (fst (query aggregatedStatus (res s) (Inr (entries, index)))))
           (lastReportedAddresses (watch s))"
    and "index = WaitIndex (watch s)"
  shows "(since < 50 * Millisecond \<longrightarrow>
            step aggregatedStatus s (QueryReturns (Inr (entries, index)) since) =
              Some (s, [Sleep (50 * Millisecond)]))
         \<and> ((\<forall>d \<in> set readings. d < 50 * Millisecond) \<longrightarrow>
            run aggregatedStatus s (map (QueryReturns (Inr (entries, index))) readings) =
              Some (s, map (\<lambda>d. Sleep (50 * Millisecond)) readings))"
proof -
  have once: "step aggregatedStatus s (QueryReturns (Inr (entries, index)) d) =
      Some (s, [Sleep (50 * Millisecond)])"
    if "d < 50 * Millisecond" for d
    using assms that by (simp add: step_def watcher_iteration_def query_def Let_def)
  have "run aggregatedStatus s (map (QueryReturns (Inr (entries, index))) readings) =
      Some (s, map (\<lambda>d. Sleep (50 * Millisecond)) readings)"
    if "\<forall>d \<in> set readings. d < 50 * Millisecond"
    using that by (induction readings) (simp_all add: once)
  with once show ?thesis
    by simp
qed

theorem fast_unchanged_response_sleeps_witness:
  "step (\<lambda>status. status)
      \<lparr>res = sample_resolver,
       watch = \<lparr>lastReportedAddresses = Some [\<lparr>Addr = ''10.0.0.1:8080''\<rparr>],
                WaitIndex = 50, at = InQuery\<rparr>\<rparr>
      (QueryReturns (Inr (Some [web1], 50)) (3 * Millisecond)) =
     Some (\<lparr>res = sample_resolver,
             watch = \<lparr>lastReportedAddresses = Some [\<lparr>Addr = ''10.0.0.1:8080''\<rparr>],
                      WaitIndex = 50, at = InQuery\<rparr>\<rparr>,
           [Sleep 50000000])
   \<and> run (\<lambda>status. status)
      \<lparr>res = sample_resolver,
       watch = \<lparr>lastReportedAddresses = Some [\<lparr>Addr = ''10.0.0.1:8080''\<rparr>],
                WaitIndex = 50, at = InQuery\<rparr>\<rparr>
      [QueryReturns (Inr (Some [web1], 50)) (3 * Millisecond),
       QueryReturns (Inr (Some [web1], 50)) (10 * Millisecond)] =
     Some (\<lparr>res = sample_resolver,
             watch = \<lparr>lastReportedAddresses = Some [\<lparr>Addr = ''10.0.0.1:8080''\<rparr>],
                      WaitIndex = 50, at = InQuery\<rparr>\<rparr>,
           [Sleep 50000000, Sleep 50000000])"
proof -
  let ?s = "\<lparr>res = sample_resolver,
             watch = \<lparr>lastReportedAddresses = Some [\<lparr>Addr = ''10.0.0.1:8080''\<rparr>],
                      WaitIndex = 50, at = InQuery\<rparr>\<rparr>"
  have querying: "at (watch ?s) = InQuery"
    by simp
  have unchanged: "addressesEqual
      (sortSlice (fst (query (\<lambda>status. status) (res ?s) (Inr (Some [web1], 50)))))
      (lastReportedAddresses (watch ?s))"
    by (simp add: query_def filterPreferOnlyHealthy_def elems_def len_def HealthPassing_def
        entry_address_def JoinHostPort_def Sprint_def digits10.simps sortSlice_def
        addressesEqual_def Let_def sample_resolver_def web1_def)
  have same_cursor: "(50 :: 64 word) = WaitIndex (watch ?s)"
    by simp
  have fast: "3 * Millisecond < 50 * Millisecond"
    by (simp add: Millisecond_def)
  have all_fast: "\<forall>d \<in> set [3 * Millisecond, 10 * Millisecond]. d < 50 * Millisecond"
    by (simp add: Millisecond_def)
  note sleeps = fast_unchanged_response_sleeps [OF querying unchanged same_cursor]
  from sleeps [THEN conjunct1, THEN mp, OF fast]
    sleeps [THEN conjunct2, THEN mp, OF all_fast]
  show ?thesis
    by (simp del: run.simps add: Millisecond_def)
qed

text \<open>
  C7.  A query that returns an error.  When the error is the cancellation, the watcher
  returns and no hook is called; a watcher that has returned does nothing more.  For
  every other error the pass calls \<open>ReportError\<close> once, with that error, and the
  watcher goes to the \<open>select\<close> of the outer loop.  There it produces no event and
  issues no query.  Once the context is cancelled the \<open>select\<close> can take that case,
  and the watcher returns; once a signal is in \<open>resolveNow\<close> the \<open>select\<close> can take
  it, and the watcher is back at the query of the inner loop; these are the only ways
  out, and when neither is there the watcher stays.  So after the report, a
  cancellation ends the watcher and a call of \<open>ResolveNow\<close> makes it query again,
  with no event in between.
\<close>

theorem query_error_handling:
  "(at (watch s) = InQuery \<longrightarrow>
      step aggregatedStatus s (QueryReturns (Inl ContextCanceled) since) =
        Some (\<lparr>res = wgStop_Done (res s),
                watch = (watch s)\<lparr>WaitIndex := 0, at := Exited\<rparr>\<rparr>, []))
   \<and> (at (watch s) = InQuery \<and> e \<noteq> ContextCanceled \<longrightarrow>
      step aggregatedStatus s (QueryReturns (Inl e) since) =
        Some (\<lparr>res = res s, watch = (watch s)\<lparr>WaitIndex := 0, at := InSelect\<rparr>\<rparr>,
              [ReportError e]))
   \<and> (at (watch s) = InSelect \<and> step aggregatedStatus s a = Some (s', evs) \<longrightarrow>
      evs = [] \<and>
      (a = SelectCtxDone \<and> ctxDone (res s) \<and> at (watch s') = Exited
       \<or> a = SelectResolveNow \<and> 0 < resolveNow (res s) \<and> at (watch s') = InQuery
       \<or> (a = CallResolveNow \<or> a = CallCancel) \<and> watch s' = watch s))
   \<and> (at (watch s) = InSelect \<and> \<not> ctxDone (res s) \<and> resolveNow (res s) = 0 \<longrightarrow>
      step aggregatedStatus s (QueryReturns response since) = None
      \<and> step aggregatedStatus s SelectCtxDone = None
      \<and> step aggregatedStatus s SelectResolveNow = None)
   \<and> (at (watch s) = InSelect \<and> ctxDone (res s) \<longrightarrow>
      step aggregatedStatus s SelectCtxDone =
        Some (\<lparr>res = wgStop_Done (res s), watch = (watch s)\<lparr>at := Exited\<rparr>\<rparr>, []))
   \<and> (at (watch s) = InSelect \<and> 0 < resolveNow (res s) \<longrightarrow>
      step aggregatedStatus s SelectResolveNow =
        Some (\<lparr>res = (res s)\<lparr>resolveNow := resolveNow (res s) - 1\<rparr>,
                watch = (watch s)\<lparr>at := InQuery\<rparr>\<rparr>, []))
   \<and> (at (watch s) = Exited \<and> step aggregatedStatus s a = Some (s', evs) \<longrightarrow>
      evs = [] \<and> watch s' = watch s \<and> (a = CallResolveNow \<or> a = CallCancel))
   \<and> (at (watch s) = InQuery \<and> e \<noteq> ContextCanceled \<longrightarrow>
      run aggregatedStatus s [QueryReturns (Inl e) since, CallCancel, SelectCtxDone] =
        Some (\<lparr>res = wgStop_Done ((res s)\<lparr>ctxDone := True\<rparr>),
                watch = (watch s)\<lparr>WaitIndex := 0, at := Exited\<rparr>\<rparr>, [ReportError e])
      \<and> run aggregatedStatus s [QueryReturns (Inl e) since, CallResolveNow, SelectResolveNow] =
        Some (\<lparr>res = (ResolveNow (res s))\<lparr>resolveNow := resolveNow (ResolveNow (res s)) - 1\<rparr>,
                watch = (watch s)\<lparr>WaitIndex := 0, at := InQuery\<rparr>\<rparr>, [ReportError e]))"
proof -
  have waiting: "evs = [] \<and>
      (a = SelectCtxDone \<and> ctxDone (res s) \<and> at (watch s') = Exited
       \<or> a = SelectResolveNow \<and> 0 < resolveNow (res s) \<and> at (watch s') = InQuery
       \<or> (a = CallResolveNow \<or> a = CallCancel) \<and> watch s' = watch s)"
    if "at (watch s) = InSelect" and "step aggregatedStatus s a = Some (s', evs)"
    using that by (cases a) (auto simp: step_def split: if_splits)
  have failing: "step aggregatedStatus s (QueryReturns (Inl e') since) =
      Some (\<lparr>res = (if e' = ContextCanceled then wgStop_Done (res s) else res s),
              watch = (watch s)\<lparr>WaitIndex := 0,
                       at := (if e' = ContextCanceled then Exited else InSelect)\<rparr>\<rparr>,
            if e' = ContextCanceled then [] else [ReportError e'])"
    if "at (watch s) = InQuery" for e'
    using that by (simp add: step_def watcher_iteration_def query_def Let_def)
  have blocked: "step aggregatedStatus s (QueryReturns response since) = None
      \<and> step aggregatedStatus s SelectCtxDone = None
      \<and> step aggregatedStatus s SelectResolveNow = None"
    if "at (watch s) = InSelect" and "\<not> ctxDone (res s)" and "resolveNow (res s) = 0"
    using that by (simp add: step_def)
  have cancelled: "step aggregatedStatus s SelectCtxDone =
      Some (\<lparr>res = wgStop_Done (res s), watch = (watch s)\<lparr>at := Exited\<rparr>\<rparr>, [])"
    if "at (watch s) = InSelect" and "ctxDone (res s)"
    using that by (simp add: step_def)
  have triggered: "step aggregatedStatus s SelectResolveNow =
      Some (\<lparr>res = (res s)\<lparr>resolveNow := resolveNow (res s) - 1\<rparr>,
              watch = (watch s)\<lparr>at := InQuery\<rparr>\<rparr>, [])"
    if "at (watch s) = InSelect" and "0 < resolveNow (res s)"
    using that by (simp add: step_def)
  have returned: "evs = [] \<and> watch s' = watch s \<and> (a = CallResolveNow \<or> a = CallCancel)"
    if "at (watch s) = Exited" and "step aggregatedStatus s a = Some (s', evs)"
    using that by (cases a) (auto simp: step_def split: if_splits)
  have pending: "0 < resolveNow (ResolveNow (res s))"
    by (simp add: ResolveNow_def resolveNow_cap_def)
  have afterwards:
    "run aggregatedStatus s [QueryReturns (Inl e) since, CallCancel, SelectCtxDone] =
        Some (\<lparr>res = wgStop_Done ((res s)\<lparr>ctxDone := True\<rparr>),
                watch = (watch s)\<lparr>WaitIndex := 0, at := Exited\<rparr>\<rparr>, [ReportError e])
     \<and> run aggregatedStatus s [QueryReturns (Inl e) since, CallResolveNow, SelectResolveNow] =
        Some (\<lparr>res = (ResolveNow (res s))\<lparr>resolveNow := resolveNow (ResolveNow (res s)) - 1\<rparr>,
                watch = (watch s)\<lparr>WaitIndex := 0, at := InQuery\<rparr>\<rparr>, [ReportError e])"
    if "at (watch s) = InQuery" and "e \<noteq> ContextCanceled"
    using that pending by (simp add: step_def watcher_iteration_def query_def Let_def)
  from waiting failing blocked cancelled triggered returned afterwards show ?thesis
    by simp
qed

theorem query_error_handling_witness:
  "step (\<lambda>status. status) (start sample_resolver)
      (QueryReturns (Inl ContextCanceled :: string consul_response) 0) =
     Some (\<lparr>res = sample_resolver,
             watch = \<lparr>lastReportedAddresses = None, WaitIndex = 0, at = Exited\<rparr>\<rparr>, [])
   \<and> step (\<lambda>status. status) (start sample_resolver)
      (QueryReturns (Inl (QueryFailed ''connection refused'') :: string consul_response) 0) =
     Some (\<lparr>res = sample_resolver\<lparr>wgStop := 1\<rparr>,
             watch = \<lparr>lastReportedAddresses = None, WaitIndex = 0, at = InSelect\<rparr>\<rparr>,
           [ReportError (QueryFailed ''connection refused'')])
   \<and> step (\<lambda>status. status)
        \<lparr>res = sample_resolver\<lparr>wgStop := 1\<rparr>,
         watch = \<lparr>lastReportedAddresses = None, WaitIndex = 0, at = InSelect\<rparr>\<rparr>
        (QueryReturns (Inr (Some [web1], 50)) 0) = None
   \<and> step (\<lambda>status. status)
        \<lparr>res = sample_resolver\<lparr>wgStop := 1, resolveNow := 1\<rparr>,
         watch = \<lparr>lastReportedAddresses = None, WaitIndex = 0, at = InSelect\<rparr>\<rparr>
        (SelectResolveNow :: string action) =
     Some (\<lparr>res = sample_resolver\<lparr>wgStop := 1\<rparr>,
             watch = \<lparr>lastReportedAddresses = None, WaitIndex = 0, at = InQuery\<rparr>\<rparr>, [])
   \<and> step (\<lambda>status. status)
        \<lparr>res = sample_resolver\<lparr>wgStop := 1, ctxDone := True\<rparr>,
         watch = \<lparr>lastReportedAddresses = None, WaitIndex = 0, at = InSelect\<rparr>\<rparr>
        (SelectCtxDone :: string action) =
     Some (\<lparr>res = sample_resolver\<lparr>ctxDone := True\<rparr>,
             watch = \<lparr>lastReportedAddresses = None, WaitIndex = 0, at = Exited\<rparr>\<rparr>, [])
   \<and> run (\<lambda>status. status) (start sample_resolver)
        [QueryReturns (Inl (QueryFailed ''connection refused'') :: string consul_response) 0,
         CallCancel, SelectCtxDone] =
     Some (\<lparr>res = sample_resolver\<lparr>ctxDone := True\<rparr>,
             watch = \<lparr>lastReportedAddresses = None, WaitIndex = 0, at = Exited\<rparr>\<rparr>,
           [ReportError (QueryFailed ''connection refused'')])"
proof -
  let ?waiting = "\<lparr>lastReportedAddresses = None, WaitIndex = 0, at = InSelect\<rparr>"
  let ?idle = "\<lparr>res = sample_resolver\<lparr>wgStop := 1\<rparr>, watch = ?waiting\<rparr>"
  let ?signalled = "\<lparr>res = sample_resolver\<lparr>wgStop := 1, resolveNow := 1\<rparr>, watch = ?waiting\<rparr>"
  let ?cancelled = "\<lparr>res = sample_resolver\<lparr>wgStop := 1, ctxDone := True\<rparr>, watch = ?waiting\<rparr>"
  have started: "at (watch (start sample_resolver)) = InQuery"
    by (simp add: start_def watcher_init_def)
  have failed: "at (watch (start sample_resolver)) = InQuery
      \<and> QueryFailed ''connection refused'' \<noteq> ContextCanceled"
    by (simp add: start_def watcher_init_def)
  have idle: "at (watch ?idle) = InSelect \<and> \<not> ctxDone (res ?idle) \<and> resolveNow (res ?idle) = 0"
    by (simp add: sample_resolver_def)
  have signalled: "at (watch ?signalled) = InSelect \<and> 0 < resolveNow (res ?signalled)"
    by simp
  have cancelled: "at (watch ?cancelled) = InSelect \<and> ctxDone (res ?cancelled)"
    by simp
  note on_start = query_error_handling
    [where s = "start sample_resolver" and aggregatedStatus = "\<lambda>status. status"
       and since = 0 and e = "QueryFailed ''connection refused''"]
  note c1 = on_start [THEN conjunct1, THEN mp, OF started]
  note c2 = on_start [THEN conjunct2, THEN conjunct1, THEN mp, OF failed]
  note c8 = on_start [THEN conjunct2, THEN conjunct2, THEN conjunct2, THEN conjunct2,
      THEN conjunct2, THEN conjunct2, THEN conjunct2, THEN mp, OF failed, THEN conjunct1]
  note c4 = query_error_handling
    [where s = ?idle and aggregatedStatus = "\<lambda>status. status" and since = 0
       and response = "Inr (Some [web1], 50)",
     THEN conjunct2, THEN conjunct2, THEN conjunct2, THEN conjunct1, THEN mp, OF idle,
     THEN conjunct1]
  note c6 = query_error_handling
    [where s = ?signalled and aggregatedStatus = "\<lambda>status. status",
     THEN conjunct2, THEN conjunct2, THEN conjunct2, THEN conjunct2, THEN conjunct2,
     THEN conjunct1, THEN mp, OF signalled]
  note c5 = query_error_handling
    [where s = ?cancelled and aggregatedStatus = "\<lambda>status. status",
     THEN conjunct2, THEN conjunct2, THEN conjunct2, THEN conjunct2,
     THEN conjunct1, THEN mp, OF cancelled]
  from c1 c2 c4 c5 c6 c8 show ?thesis
    by (simp del: run.simps
        add: start_def watcher_init_def sample_resolver_def wgStop_Done_def)
qed


section \<open>Properties of the snapshots\<close>

text \<open>
  \<open>sort.Slice\<close> is not stable, but an address is nothing more than its \<open>Addr\<close>, and
  then the sorted arrangement of a list is unique: whatever arrangement the Go
  function leaves behind, it is the one of \<open>sortSlice\<close>.
\<close>

lemma sorted_arrangement_unique:
  fixes xs ys :: "Address list"
  assumes "mset ys = mset xs" and "sorted (map Addr ys)"
  shows "sortSlice (Some xs) = Some ys"
proof -
  have "inj_on Addr (set xs)"
    by (rule inj_onI) simp
  with assms have "sort_key Addr xs = ys"
    by (intro sort_key_inj_key_eq) simp_all
  then show ?thesis
    by (simp add: sortSlice_def)
qed

lemma sortSlice_sorted: "sorted (map Addr (elems (sortSlice a)))"
  by (cases a) (simp_all add: sortSlice_def elems_def)

lemma sortSlice_mset: "mset (elems (sortSlice a)) = mset (elems a)"
  by (cases a) (simp_all add: sortSlice_def elems_def)

lemma query_addresses:
  "fst (query aggregatedStatus c (Inr (entries, index))) =
     Some (map entry_address
       (elems (if healthFilter c = healthFilterFallbackToUnhealthy
               then filterPreferOnlyHealthy aggregatedStatus entries else entries)))"
  by (simp add: query_def Let_def)

lemma query_healthFilter_only:
  "healthFilter c = healthFilter c' \<Longrightarrow>
     query aggregatedStatus c response = query aggregatedStatus c' response"
  by (cases response) (auto simp: query_def)

lemma pass_compares_sorted:
  assumes "at (watch s) = InQuery" and "\<not> index < WaitIndex (watch s)"
  shows "step aggregatedStatus s (QueryReturns (Inr (entries, index)) since) =
     (let snapshot = sortSlice (fst (query aggregatedStatus (res s) (Inr (entries, index))))
      in Some (if addressesEqual snapshot (lastReportedAddresses (watch s))
               then (s\<lparr>watch := (watch s)\<lparr>WaitIndex := index\<rparr>\<rparr>,
                     if WaitIndex (watch s) = index \<and> since < 50 * Millisecond
                     then [Sleep (50 * Millisecond)] else [])
               else (s\<lparr>watch := (watch s)\<lparr>WaitIndex := index,
                                          lastReportedAddresses := snapshot\<rparr>\<rparr>,
                     [UpdateState snapshot])))"
  using assms
  by (simp add: step_def watcher_iteration_def query_def Let_def)

lemma step_reports:
  assumes "step aggregatedStatus s a = Some (s1, evs1)"
  shows "healthFilter (res s1) = healthFilter (res s)
     \<and> (\<forall>x. UpdateState x \<in> set evs1 \<longrightarrow>
          (\<exists>es i d. a = QueryReturns (Inr (es, i)) d
             \<and> x = sortSlice (fst (query aggregatedStatus (res s) (Inr (es, i))))))
     \<and> (lastReportedAddresses (watch s1) = lastReportedAddresses (watch s)
          \<or> UpdateState (lastReportedAddresses (watch s1)) \<in> set evs1)"
proof (cases a)
  case (QueryReturns response d)
  show ?thesis
  proof (cases response)
    case (Inl e)
    with QueryReturns assms show ?thesis
      by (auto simp: step_def watcher_iteration_def query_def wgStop_Done_def Let_def
          split: if_splits)
  next
    case (Inr answer)
    obtain es i where "answer = (es, i)"
      by (cases answer)
    with Inr QueryReturns assms show ?thesis
      by (auto simp: step_def watcher_iteration_def query_def wgStop_Done_def Let_def
          split: if_splits)
  qed
qed (use assms in \<open>auto simp: step_def ResolveNow_def wgStop_Done_def split: if_splits\<close>)

lemma run_reports:
  assumes "run aggregatedStatus s acts = Some (s', evs)"
  shows "healthFilter (res s') = healthFilter (res s)
     \<and> (\<forall>x. UpdateState x \<in> set evs \<longrightarrow>
          (\<exists>es i d. QueryReturns (Inr (es, i)) d \<in> set acts
             \<and> x = sortSlice (fst (query aggregatedStatus (res s) (Inr (es, i))))))
     \<and> (lastReportedAddresses (watch s') = lastReportedAddresses (watch s)
          \<or> UpdateState (lastReportedAddresses (watch s')) \<in> set evs)"
  using assms
proof (induction acts arbitrary: s s' evs)
  case Nil
  then show ?case by simp
next
  case (Cons a acts)
  from Cons.prems obtain s1 evs1 evs2 where
    st: "step aggregatedStatus s a = Some (s1, evs1)" and
    rn: "run aggregatedStatus s1 acts = Some (s', evs2)" and
    eq: "evs = evs1 @ evs2"
    by (auto split: option.splits prod.splits)
  note first = step_reports [OF st]
  note rest = Cons.IH [OF rn]
  from first have same: "query aggregatedStatus (res s1) response =
      query aggregatedStatus (res s) response" for response
    by (intro query_healthFilter_only) simp
  have filter: "healthFilter (res s') = healthFilter (res s)"
    using first rest by simp
  have reported: "\<exists>es i d. QueryReturns (Inr (es, i)) d \<in> set (a # acts)
      \<and> x = sortSlice (fst (query aggregatedStatus (res s) (Inr (es, i))))"
    if "UpdateState x \<in> set evs" for x
  proof -
    from that eq consider "UpdateState x \<in> set evs1" | "UpdateState x \<in> set evs2"
      by auto
    then show ?thesis
    proof cases
      case 1
      with first obtain es i d where "a = QueryReturns (Inr (es, i)) d"
        and "x = sortSlice (fst (query aggregatedStatus (res s) (Inr (es, i))))"
        by blast
      then show ?thesis
        by auto
    next
      case 2
      with rest obtain es i d where "QueryReturns (Inr (es, i)) d \<in> set acts"
        and "x = sortSlice (fst (query aggregatedStatus (res s1) (Inr (es, i))))"
        by blast
      then show ?thesis
        by (auto simp: same)
    qed
  qed
  have kept: "lastReportedAddresses (watch s') = lastReportedAddresses (watch s)
      \<or> UpdateState (lastReportedAddresses (watch s')) \<in> set evs"
    using first rest eq by auto
  from filter reported kept show ?case
    by blast
qed

text \<open>
  C5, as the spec states it, fails: nothing removes duplicates.  Two entries of one
  query that announce the same service address and port, here under two nodes, are
  reported as two equal addresses.
\<close>

theorem duplicate_addresses_reported:
  "step (\<lambda>status. status) (start sample_resolver)
      (QueryReturns (Inr (Some [web1_again, web1], 50)) 0) =
     Some (\<lparr>res = sample_resolver\<lparr>wgStop := 1\<rparr>,
             watch = \<lparr>lastReportedAddresses =
                        Some [\<lparr>Addr = ''10.0.0.1:8080''\<rparr>, \<lparr>Addr = ''10.0.0.1:8080''\<rparr>],
                      WaitIndex = 50, at = InQuery\<rparr>\<rparr>,
           [UpdateState (Some [\<lparr>Addr = ''10.0.0.1:8080''\<rparr>, \<lparr>Addr = ''10.0.0.1:8080''\<rparr>])])
   \<and> \<not> distinct (map Addr [\<lparr>Addr = ''10.0.0.1:8080''\<rparr>, \<lparr>Addr = ''10.0.0.1:8080''\<rparr>])"
  by (simp add: step_def start_def watcher_init_def watcher_iteration_def query_def
      filterPreferOnlyHealthy_def elems_def len_def HealthPassing_def entry_address_def
      JoinHostPort_def Sprint_def digits10.simps sortSlice_def addressesEqual_def Let_def
      sample_resolver_def web1_def web1_again_def)

text \<open>
  C5, amended.  The addresses of a query are one address for each entry that the
  health mode keeps, duplicates included.  The snapshot that a pass compares with the
  previous one, and reports and keeps when the two differ, is that list sorted by
  address in the order of the strings: sorting loses and adds nothing.  Whatever
  happens to a started watcher, every snapshot it reports is the sorted list of the
  addresses of one of its queries, and the snapshot it keeps as the last reported one
  is \<open>nil\<close> or one that it has reported, hence sorted as well.
\<close>

theorem snapshots_sorted:
  "sorted (map Addr (elems (sortSlice addresses)))
   \<and> mset (elems (sortSlice addresses)) = mset (elems addresses)
   \<and> fst (query aggregatedStatus c (Inr (entries, index))) =
       Some (map entry_address
         (elems (if healthFilter c = healthFilterFallbackToUnhealthy
                 then filterPreferOnlyHealthy aggregatedStatus entries else entries)))
   \<and> (at (watch s) = InQuery \<and> \<not> index < WaitIndex (watch s) \<longrightarrow>
        step aggregatedStatus s (QueryReturns (Inr (entries, index)) since) =
          (let snapshot =
                 sortSlice (fst (query aggregatedStatus (res s) (Inr (entries, index))))
           in Some (if addressesEqual snapshot (lastReportedAddresses (watch s))
                    then (s\<lparr>watch := (watch s)\<lparr>WaitIndex := index\<rparr>\<rparr>,
                          if WaitIndex (watch s) = index \<and> since < 50 * Millisecond
                          then [Sleep (50 * Millisecond)] else [])
                    else (s\<lparr>watch := (watch s)\<lparr>WaitIndex := index,
                                               lastReportedAddresses := snapshot\<rparr>\<rparr>,
                          [UpdateState snapshot]))))
   \<and> (run aggregatedStatus (start c) acts = Some (s', evs) \<longrightarrow>
        (\<forall>a. UpdateState a \<in> set evs \<longrightarrow>
           sorted (map Addr (elems a))
           \<and> (\<exists>es i d. QueryReturns (Inr (es, i)) d \<in> set acts
                \<and> a = sortSlice (fst (query aggregatedStatus c (Inr (es, i))))))
        \<and> sorted (map Addr (elems (lastReportedAddresses (watch s'))))
        \<and> (lastReportedAddresses (watch s') = None
            \<or> UpdateState (lastReportedAddresses (watch s')) \<in> set evs))"
proof -
  have running: "(\<forall>a. UpdateState a \<in> set evs \<longrightarrow>
           sorted (map Addr (elems a))
           \<and> (\<exists>es i d. QueryReturns (Inr (es, i)) d \<in> set acts
                \<and> a = sortSlice (fst (query aggregatedStatus c (Inr (es, i))))))
        \<and> sorted (map Addr (elems (lastReportedAddresses (watch s'))))
        \<and> (lastReportedAddresses (watch s') = None
            \<or> UpdateState (lastReportedAddresses (watch s')) \<in> set evs)"
    if ran: "run aggregatedStatus (start c) acts = Some (s', evs)"
  proof -
    have same: "query aggregatedStatus (res (start c)) response =
        query aggregatedStatus c response" for response
      by (intro query_healthFilter_only) (simp add: start_def)
    have fresh: "lastReportedAddresses (watch (start c)) = None"
      by (simp add: start_def watcher_init_def)
    note reports = run_reports [OF ran, unfolded same fresh]
    have each: "sorted (map Addr (elems a))
        \<and> (\<exists>es i d. QueryReturns (Inr (es, i)) d \<in> set acts
             \<and> a = sortSlice (fst (query aggregatedStatus c (Inr (es, i)))))"
      if "UpdateState a \<in> set evs" for a
    proof -
      from reports that obtain es i d where
        "QueryReturns (Inr (es, i)) d \<in> set acts"
        and "a = sortSlice (fst (query aggregatedStatus c (Inr (es, i))))"
        by blast
      then show ?thesis
        using sortSlice_sorted by blast
    qed
    from reports have last: "lastReportedAddresses (watch s') = None
        \<or> UpdateState (lastReportedAddresses (watch s')) \<in> set evs"
      by simp
    then have "sorted (map Addr (elems (lastReportedAddresses (watch s'))))"
    proof
      assume "lastReportedAddresses (watch s') = None"
      then show ?thesis by (simp add: elems_def)
    next
      assume "UpdateState (lastReportedAddresses (watch s')) \<in> set evs"
      with each show ?thesis by blast
    qed
    with each last show ?thesis
      by blast
  qed
  have pass: "step aggregatedStatus s (QueryReturns (Inr (entries, index)) since) =
          (let snapshot =
                 sortSlice (fst (query aggregatedStatus (res s) (Inr (entries, index))))
           in Some (if addressesEqual snapshot (lastReportedAddresses (watch s))
                    then (s\<lparr>watch := (watch s)\<lparr>WaitIndex := index\<rparr>\<rparr>,
                          if WaitIndex (watch s) = index \<and> since < 50 * Millisecond
                          then [Sleep (50 * Millisecond)] else [])
                    else (s\<lparr>watch := (watch s)\<lparr>WaitIndex := index,
                                               lastReportedAddresses := snapshot\<rparr>\<rparr>,
                          [UpdateState snapshot])))"
    if "at (watch s) = InQuery" and "\<not> index < WaitIndex (watch s)"
    using that by (rule pass_compares_sorted)
  from running pass show ?thesis
    using sortSlice_sorted [of addresses] sortSlice_mset [of addresses]
      query_addresses [of aggregatedStatus c entries index]
    by blast
qed

theorem snapshots_sorted_witness:
  "run (\<lambda>status. status) (start sample_resolver)
      [QueryReturns (Inr (Some [web2, web1_again, web1], 50)) 0] =
     Some (\<lparr>res = sample_resolver\<lparr>wgStop := 1\<rparr>,
             watch = \<lparr>lastReportedAddresses =
                        Some [\<lparr>Addr = ''10.0.0.1:8080''\<rparr>, \<lparr>Addr = ''10.0.0.1:8080''\<rparr>,
                              \<lparr>Addr = ''10.0.0.2:8080''\<rparr>],
                      WaitIndex = 50, at = InQuery\<rparr>\<rparr>,
           [UpdateState (Some [\<lparr>Addr = ''10.0.0.1:8080''\<rparr>, \<lparr>Addr = ''10.0.0.1:8080''\<rparr>,
                               \<lparr>Addr = ''10.0.0.2:8080''\<rparr>])])
   \<and> sorted (map Addr (elems (Some [\<lparr>Addr = ''10.0.0.1:8080''\<rparr>, \<lparr>Addr = ''10.0.0.1:8080''\<rparr>,
                                      \<lparr>Addr = ''10.0.0.2:8080''\<rparr>])))"
proof -
  let ?s = "start sample_resolver"
  let ?entries = "Some [web2, web1_again, web1]"
  let ?sorted = "Some [\<lparr>Addr = ''10.0.0.1:8080''\<rparr>, \<lparr>Addr = ''10.0.0.1:8080''\<rparr>,
                       \<lparr>Addr = ''10.0.0.2:8080''\<rparr>]"
  have querying: "at (watch ?s) = InQuery \<and> \<not> (50 :: 64 word) < WaitIndex (watch ?s)"
    by (simp add: start_def watcher_init_def)
  have snapshot: "sortSlice (fst (query (\<lambda>status. status) (res ?s) (Inr (?entries, 50)))) =
      ?sorted"
    by (simp add: query_def filterPreferOnlyHealthy_def elems_def HealthPassing_def
        entry_address_def JoinHostPort_def Sprint_def digits10.simps sortSlice_def Let_def
        start_def sample_resolver_def web1_def web2_def web1_again_def)
  have changed: "\<not> addressesEqual ?sorted (lastReportedAddresses (watch ?s))"
    by (simp add: addressesEqual_def start_def watcher_init_def)
  from snapshots_sorted
         [where s = ?s and index = 50 and entries = ?entries
            and aggregatedStatus = "\<lambda>status. status" and since = 0,
          THEN conjunct2, THEN conjunct2, THEN conjunct2, THEN conjunct1, THEN mp,
          OF querying]
  have "step (\<lambda>status. status) ?s (QueryReturns (Inr (?entries, 50)) 0) =
      Some (?s\<lparr>watch := (watch ?s)\<lparr>WaitIndex := 50, lastReportedAddresses := ?sorted\<rparr>\<rparr>,
            [UpdateState ?sorted])"
    by (simp only: snapshot Let_def changed if_False)
  then have ran: "run (\<lambda>status. status) ?s [QueryReturns (Inr (?entries, 50)) 0] =
      Some (\<lparr>res = sample_resolver\<lparr>wgStop := 1\<rparr>,
              watch = \<lparr>lastReportedAddresses = ?sorted, WaitIndex = 50, at = InQuery\<rparr>\<rparr>,
            [UpdateState ?sorted])"
    by (simp add: start_def watcher_init_def sample_resolver_def)
  from snapshots_sorted
         [where c = sample_resolver and aggregatedStatus = "\<lambda>status. status",
          THEN conjunct2, THEN conjunct2, THEN conjunct2, THEN conjunct2, THEN mp, OF ran,
          THEN conjunct2, THEN conjunct1]
  have "sorted (map Addr (elems ?sorted))"
    by (simp only: system.simps watcher.simps)
  with ran show ?thesis
    by (simp del: run.simps)
qed


section \<open>Properties of the trigger\<close>

lemma ResolveNow_pending:
  "resolveNow c \<le> resolveNow_cap \<Longrightarrow> resolveNow (ResolveNow c) = resolveNow_cap"
  by (simp add: ResolveNow_def resolveNow_cap_def)

lemma ResolveNow_full: "resolveNow c = resolveNow_cap \<Longrightarrow> ResolveNow c = c"
  by (simp add: ResolveNow_def)

lemma ResolveNow_repeated:
  assumes "resolveNow c \<le> resolveNow_cap"
  shows "(ResolveNow ^^ Suc n) c = ResolveNow c"
proof (induction n)
  case 0
  show ?case by simp
next
  case (Suc n)
  have "(ResolveNow ^^ Suc (Suc n)) c = ResolveNow ((ResolveNow ^^ Suc n) c)"
    by simp
  also have "\<dots> = ResolveNow (ResolveNow c)"
    by (simp only: Suc.IH)
  also have "\<dots> = ResolveNow c"
    using assms by (intro ResolveNow_full ResolveNow_pending)
  finally show ?case .
qed

lemma run_append:
  "run aggregatedStatus s (as @ bs) =
     (case run aggregatedStatus s as of
        None \<Rightarrow> None
      | Some (s', evs) \<Rightarrow>
          (case run aggregatedStatus s' bs of
             None \<Rightarrow> None
           | Some (s'', evs') \<Rightarrow> Some (s'', evs @ evs')))"
  by (induction as arbitrary: s) (auto split: option.splits)

lemma run_calls:
  "run aggregatedStatus s (replicate n CallResolveNow) =
     Some (s\<lparr>res := (ResolveNow ^^ n) (res s)\<rparr>, [])"
proof (induction n arbitrary: s)
  case 0
  show ?case by simp
next
  case (Suc n)
  show ?case
    by (simp add: step_def Suc.IH funpow_swap1)
qed

lemma step_keeps_capacity:
  assumes "step aggregatedStatus s a = Some (s', evs)"
    and "resolveNow (res s) \<le> resolveNow_cap"
  shows "resolveNow (res s') \<le> resolveNow_cap"
  using assms
  by (cases a)
    (auto simp: step_def ResolveNow_def wgStop_Done_def Let_def
      split: if_splits prod.splits)

text \<open>
  C8.  \<open>ResolveNow\<close> always returns, and the channel never holds more than its one
  signal: no step of the system takes it beyond that.  A call that finds a signal
  pending changes nothing, and any positive number of calls leaves the state that one
  call leaves.  When a watcher waits in its \<open>select\<close> with no signal pending and
  \<open>ResolveNow\<close> is then called any positive number of times, the watcher takes the
  signal and starts one cycle of queries; when that cycle ends with an error, no
  signal is left to start another.
\<close>

theorem ResolveNow_coalesces:
  "(resolveNow (res s) \<le> resolveNow_cap \<and> step aggregatedStatus s a = Some (s', evs) \<longrightarrow>
      resolveNow (res s') \<le> resolveNow_cap)
   \<and> (resolveNow c \<le> resolveNow_cap \<longrightarrow> resolveNow (ResolveNow c) = resolveNow_cap)
   \<and> (resolveNow c = resolveNow_cap \<longrightarrow> ResolveNow c = c)
   \<and> (resolveNow c \<le> resolveNow_cap \<and> 0 < n \<longrightarrow> (ResolveNow ^^ n) c = ResolveNow c)
   \<and> (at (watch s) = InSelect \<and> resolveNow (res s) = 0 \<and> 0 < n \<longrightarrow>
        run aggregatedStatus s (replicate n CallResolveNow @ [SelectResolveNow]) =
          Some (s\<lparr>watch := (watch s)\<lparr>at := InQuery\<rparr>\<rparr>, [])
        \<and> (e \<noteq> ContextCanceled \<longrightarrow>
             run aggregatedStatus s
               (replicate n CallResolveNow @ [SelectResolveNow, QueryReturns (Inl e) since]) =
               Some (s\<lparr>watch := (watch s)\<lparr>WaitIndex := 0\<rparr>\<rparr>, [ReportError e])
             \<and> run aggregatedStatus s
               (replicate n CallResolveNow @
                  [SelectResolveNow, QueryReturns (Inl e) since, SelectResolveNow]) = None))"
proof -
  have repeated: "(ResolveNow ^^ n) c = ResolveNow c"
    if "resolveNow c \<le> resolveNow_cap" and "0 < n" for c
    using that ResolveNow_repeated [of c "n - 1"] by simp
  have cycle:
    "run aggregatedStatus s (replicate n CallResolveNow @ [SelectResolveNow]) =
       Some (s\<lparr>watch := (watch s)\<lparr>at := InQuery\<rparr>\<rparr>, [])
     \<and> (e \<noteq> ContextCanceled \<longrightarrow>
          run aggregatedStatus s
            (replicate n CallResolveNow @ [SelectResolveNow, QueryReturns (Inl e) since]) =
            Some (s\<lparr>watch := (watch s)\<lparr>WaitIndex := 0\<rparr>\<rparr>, [ReportError e])
          \<and> run aggregatedStatus s
            (replicate n CallResolveNow @
               [SelectResolveNow, QueryReturns (Inl e) since, SelectResolveNow]) = None)"
    if waits: "at (watch s) = InSelect" and none: "resolveNow (res s) = 0" and "0 < n"
  proof -
    from none \<open>0 < n\<close> have "(ResolveNow ^^ n) (res s) = ResolveNow (res s)"
      by (intro repeated) simp_all
    then have called: "run aggregatedStatus s (replicate n CallResolveNow) =
        Some (s\<lparr>res := (res s)\<lparr>resolveNow := 1\<rparr>\<rparr>, [])"
      using none by (simp add: run_calls ResolveNow_def resolveNow_cap_def)
    show ?thesis
      using waits none
      by (simp add: run_append called step_def watcher_iteration_def query_def Let_def)
  qed
  from repeated cycle show ?thesis
    using step_keeps_capacity [of aggregatedStatus s a s' evs]
    by (simp add: ResolveNow_pending ResolveNow_full)
qed

theorem ResolveNow_coalesces_witness:
  "run (\<lambda>status. status)
      \<lparr>res = sample_resolver,
       watch = \<lparr>lastReportedAddresses = None, WaitIndex = 0, at = InSelect\<rparr>\<rparr>
      (replicate 3 CallResolveNow @ [SelectResolveNow :: string action]) =
     Some (\<lparr>res = sample_resolver,
             watch = \<lparr>lastReportedAddresses = None, WaitIndex = 0, at = InQuery\<rparr>\<rparr>, [])
   \<and> run (\<lambda>status. status)
      \<lparr>res = sample_resolver,
       watch = \<lparr>lastReportedAddresses = None, WaitIndex = 0, at = InSelect\<rparr>\<rparr>
      (replicate 3 CallResolveNow @
         [SelectResolveNow :: string action, QueryReturns (Inl (QueryFailed ''timeout'')) 0,
          SelectResolveNow]) = None
   \<and> ResolveNow (ResolveNow sample_resolver) = ResolveNow sample_resolver
   \<and> resolveNow (ResolveNow sample_resolver) = 1"
proof -
  let ?s = "\<lparr>res = sample_resolver,
             watch = \<lparr>lastReportedAddresses = None, WaitIndex = 0, at = InSelect\<rparr>\<rparr>"
  have waits: "at (watch ?s) = InSelect \<and> resolveNow (res ?s) = 0 \<and> 0 < (3 :: nat)"
    by (simp add: sample_resolver_def)
  have empty: "resolveNow sample_resolver \<le> resolveNow_cap"
    by (simp add: sample_resolver_def)
  have twice: "(ResolveNow ^^ 2) sample_resolver = ResolveNow (ResolveNow sample_resolver)"
    by (simp add: numeral_2_eq_2)
  from ResolveNow_coalesces
         [of ?s "\<lambda>status. status" _ _ _ sample_resolver 3 "QueryFailed ''timeout''" 0]
       ResolveNow_coalesces
         [of ?s "\<lambda>status. status" _ _ _ sample_resolver 2 "QueryFailed ''timeout''" 0]
       waits empty twice
  show ?thesis
    by (simp add: resolveNow_cap_def)
qed


section \<open>Properties of the builder\<close>

lemma extractOpts_range_rejects:
  assumes "(key, values) \<in> set opts" and "values \<noteq> []"
    and "toLower key \<notin> {''scheme'', ''tags'', ''dc'', ''health'', ''token''}
         \<or> toLower key = ''scheme'' \<and> toLower (last values) \<notin> {''http'', ''https''}
         \<or> toLower key = ''health''
             \<and> toLower (last values) \<notin> {''healthy'', ''fallbacktounhealthy''}"
  shows "\<exists>err. extractOpts_range toLower r opts = Inl err"
  using assms(1)
proof (induction opts arbitrary: r)
  case Nil
  then show ?case by simp
next
  case (Cons kv opts)
  obtain k vs where kv: "kv = (k, vs)"
    by (cases kv)
  show ?case
  proof (cases "(key, values) = kv")
    case True
    with kv assms(2,3) show ?thesis
      by (auto simp: Let_def)
  next
    case False
    with Cons.prems have "(key, values) \<in> set opts"
      by simp
    then have "\<exists>err. extractOpts_range toLower r' opts = Inl err" for r'
      by (rule Cons.IH)
    then show ?thesis
      by (simp add: kv Let_def)
  qed
qed

lemma step_keeps_configuration:
  assumes "step aggregatedStatus s a = Some (s', evs)"
  shows "tags (res s') = tags (res s) \<and> service (res s') = service (res s)
         \<and> healthFilter (res s') = healthFilter (res s)"
  using assms
  by (cases a)
    (auto simp: step_def ResolveNow_def wgStop_Done_def Let_def
      split: if_splits prod.splits)

text \<open>
  C9.  A target URL whose path holds no service name, or whose query has a key that
  is no option, a \<open>scheme\<close> that is neither \<open>http\<close> nor \<open>https\<close>, or a \<open>health\<close>
  that is neither \<open>healthy\<close> nor \<open>fallbackToUnhealthy\<close> (keys and values are compared
  in lower case; the value of an option is its last occurrence, and \<open>url.Query()\<close>
  gives every key at least one): \<open>parseEndpoint\<close> returns an error, and \<open>Build\<close>
  returns that error and neither a resolver nor a watcher, in whatever order the
  options are visited.  The configuration is parsed nowhere else: no step of the
  running system changes the tags, the service name or the health mode of the
  resolver, and \<open>ReportError\<close> carries, by its type, only the error of a query.
\<close>

theorem configuration_errors_fail_construction:
  "(TrimPrefix_slash (Path url) = []
    \<or> (\<exists>(key, values) \<in> set (Query url). values \<noteq> [] \<and>
         (toLower key \<notin> {''scheme'', ''tags'', ''dc'', ''health'', ''token''}
          \<or> toLower key = ''scheme'' \<and> toLower (last values) \<notin> {''http'', ''https''}
          \<or> toLower key = ''health''
              \<and> toLower (last values) \<notin> {''healthy'', ''fallbacktounhealthy''}))
    \<longrightarrow> (\<exists>err. parseEndpoint toLower url = Inl err
               \<and> Build toLower createHealthClient url = Inl err))
   \<and> (step aggregatedStatus s a = Some (s', evs) \<longrightarrow>
        tags (res s') = tags (res s) \<and> service (res s') = service (res s)
        \<and> healthFilter (res s') = healthFilter (res s))"
proof -
  have nameless: "\<exists>err. parseEndpoint toLower url = Inl err"
    if "TrimPrefix_slash (Path url) = []"
    using that by (simp add: parseEndpoint_def)
  have option: "\<exists>err. parseEndpoint toLower url = Inl err"
    if "\<exists>(key, values) \<in> set (Query url). values \<noteq> [] \<and>
         (toLower key \<notin> {''scheme'', ''tags'', ''dc'', ''health'', ''token''}
          \<or> toLower key = ''scheme'' \<and> toLower (last values) \<notin> {''http'', ''https''}
          \<or> toLower key = ''health''
              \<and> toLower (last values) \<notin> {''healthy'', ''fallbacktounhealthy''})"
  proof -
    from that obtain key vals where
      "(key, vals) \<in> set (Query url)" and "vals \<noteq> []"
      and "toLower key \<notin> {''scheme'', ''tags'', ''dc'', ''health'', ''token''}
           \<or> toLower key = ''scheme'' \<and> toLower (last vals) \<notin> {''http'', ''https''}
           \<or> toLower key = ''health''
               \<and> toLower (last vals) \<notin> {''healthy'', ''fallbacktounhealthy''}"
      by blast
    from extractOpts_range_rejects [OF this, of no_opts] show ?thesis
      by (auto simp: parseEndpoint_def extractOpts_def Let_def)
  qed
  have build: "\<exists>err. parseEndpoint toLower url = Inl err
                    \<and> Build toLower createHealthClient url = Inl err"
    if "\<exists>err. parseEndpoint toLower url = Inl err"
    using that by (auto simp: Build_def)
  from nameless option build step_keeps_configuration [of aggregatedStatus s a s' evs]
  show ?thesis
    by blast
qed

theorem configuration_errors_fail_construction_witness:
  "Build ascii_ToLower (\<lambda>cfg. None)
      \<lparr>Host = ''127.0.0.1:8500'', Path = ''/web'',
       Query = [(''tags'', [''primary,eu'']), (''Health'', [''bogus''])]\<rparr> =
     Inl (UnsupportedHealth ''bogus'')
   \<and> Build ascii_ToLower (\<lambda>cfg. None)
      \<lparr>Host = ''127.0.0.1:8500'', Path = ''/'', Query = []\<rparr> = Inl PathMissing"
proof -
  let ?url = "\<lparr>Host = ''127.0.0.1:8500'', Path = ''/web'',
               Query = [(''tags'', [''primary,eu'']), (''Health'', [''bogus''])]\<rparr>"
  let ?nopath = "\<lparr>Host = ''127.0.0.1:8500'', Path = ''/'', Query = []\<rparr>"
  have lower: "ascii_ToLower ''tags'' = ''tags''" "ascii_ToLower ''Health'' = ''health''"
    "ascii_ToLower ''bogus'' = ''bogus''"
    by code_simp+
  have parsed: "parseEndpoint ascii_ToLower ?url = Inl (UnsupportedHealth ''bogus'')"
    by (simp add: parseEndpoint_def extractOpts_def TrimPrefix_slash_def no_opts_def lower)
  have nopath: "parseEndpoint ascii_ToLower ?nopath = Inl PathMissing"
    by (simp add: parseEndpoint_def TrimPrefix_slash_def)
  have bad: "\<exists>(key, values) \<in> set (Query ?url). values \<noteq> [] \<and>
         (ascii_ToLower key \<notin> {''scheme'', ''tags'', ''dc'', ''health'', ''token''}
          \<or> ascii_ToLower key = ''scheme''
              \<and> ascii_ToLower (last values) \<notin> {''http'', ''https''}
          \<or> ascii_ToLower key = ''health''
              \<and> ascii_ToLower (last values) \<notin> {''healthy'', ''fallbacktounhealthy''})"
    by (simp add: lower)
  have empty: "TrimPrefix_slash (Path ?nopath) = []"
    by (simp add: TrimPrefix_slash_def)
  have rejected: "TrimPrefix_slash (Path ?url) = []
    \<or> (\<exists>(key, values) \<in> set (Query ?url). values \<noteq> [] \<and>
         (ascii_ToLower key \<notin> {''scheme'', ''tags'', ''dc'', ''health'', ''token''}
          \<or> ascii_ToLower key = ''scheme''
              \<and> ascii_ToLower (last values) \<notin> {''http'', ''https''}
          \<or> ascii_ToLower key = ''health''
              \<and> ascii_ToLower (last values) \<notin> {''healthy'', ''fallbacktounhealthy''}))"
    using bad by (rule disjI2)
  have missing: "TrimPrefix_slash (Path ?nopath) = []
    \<or> (\<exists>(key, values) \<in> set (Query ?nopath). values \<noteq> [] \<and>
         (ascii_ToLower key \<notin> {''scheme'', ''tags'', ''dc'', ''health'', ''token''}
          \<or> ascii_ToLower key = ''scheme''
              \<and> ascii_ToLower (last values) \<notin> {''http'', ''https''}
          \<or> ascii_ToLower key = ''health''
              \<and> ascii_ToLower (last values) \<notin> {''healthy'', ''fallbacktounhealthy''}))"
    using empty by (rule disjI1)
  from configuration_errors_fail_construction
         [where createHealthClient = "\<lambda>cfg. None", THEN conjunct1, THEN mp, OF rejected]
  obtain err where "parseEndpoint ascii_ToLower ?url = Inl err"
    and "Build ascii_ToLower (\<lambda>cfg. None) ?url = Inl err"
    by blast
  with parsed have "Build ascii_ToLower (\<lambda>cfg. None) ?url = Inl (UnsupportedHealth ''bogus'')"
    by simp
  moreover
  from configuration_errors_fail_construction
         [where createHealthClient = "\<lambda>cfg. None", THEN conjunct1, THEN mp, OF missing]
  obtain err' where "parseEndpoint ascii_ToLower ?nopath = Inl err'"
    and "Build ascii_ToLower (\<lambda>cfg. None) ?nopath = Inl err'"
    by blast
  with nopath have "Build ascii_ToLower (\<lambda>cfg. None) ?nopath = Inl PathMissing"
    by simp
  ultimately show ?thesis
    by simp
qed

lemma extractOpts_range_tags:
  assumes "extractOpts_range toLower r0 opts = Inr r"
    and "\<forall>(key, values) \<in> set opts. toLower key = ''tags'' \<and> values \<noteq> [] \<longrightarrow> last values = []"
  shows "opt_tags r =
           (if \<exists>(key, values) \<in> set opts. toLower key = ''tags'' \<and> values \<noteq> []
            then Some [[]] else opt_tags r0)"
  using assms
proof (induction opts arbitrary: r0)
  case Nil
  then show ?case by simp
next
  case (Cons kv opts)
  obtain k vs where kv: "kv = (k, vs)"
    by (cases kv)
  from Cons.prems(2) have rest:
    "\<forall>(key, values) \<in> set opts. toLower key = ''tags'' \<and> values \<noteq> [] \<longrightarrow> last values = []"
    by simp
  show ?case
  proof (cases "vs = []")
    case True
    with Cons.prems(1) kv have "extractOpts_range toLower r0 opts = Inr r"
      by simp
    from Cons.IH [OF this rest] True kv show ?thesis
      by simp
  next
    case False
    show ?thesis
    proof (cases "toLower k = ''tags''")
      case True
      with False Cons.prems(2) kv have "last vs = []"
        by simp
      with True False Cons.prems(1) kv
      have "extractOpts_range toLower (r0\<lparr>opt_tags := Some [[]]\<rparr>) opts = Inr r"
        by (simp add: Let_def)
      from Cons.IH [OF this rest] True False kv show ?thesis
        by auto
    next
      case other: False
      with False Cons.prems(1) kv obtain r1 where
        "extractOpts_range toLower r1 opts = Inr r" and "opt_tags r1 = opt_tags r0"
        by (auto simp: Let_def split: if_splits)
      with Cons.IH [OF _ rest] other kv show ?thesis
        by auto
    qed
  qed
qed

text \<open>
  C10.  When option parsing succeeds on a query that has the option \<open>tags\<close> with the
  empty value (every key that reads \<open>tags\<close> in lower case has the empty string as its
  last value), the tag list is the list of one element, the empty string.  When the
  query has no such key the tag list is \<open>nil\<close>.  So \<open>tags=\<close> is not the same as no
  \<open>tags\<close> at all, and \<open>Build\<close> hands the difference on to the resolver.
\<close>

theorem empty_tags_option:
  "(extractOpts toLower opts = Inr r
    \<and> (\<exists>(key, values) \<in> set opts. toLower key = ''tags'' \<and> values \<noteq> [])
    \<and> (\<forall>(key, values) \<in> set opts. toLower key = ''tags'' \<and> values \<noteq> [] \<longrightarrow> last values = [])
    \<longrightarrow> opt_tags r = Some [[]])
   \<and> (extractOpts toLower opts = Inr r
    \<and> (\<forall>(key, values) \<in> set opts. toLower key \<noteq> ''tags'')
    \<longrightarrow> opt_tags r = None)
   \<and> Split [] CHR '','' = [[]]"
proof -
  have present: "opt_tags r = Some [[]]"
    if "extractOpts toLower opts = Inr r"
      and "\<exists>(key, values) \<in> set opts. toLower key = ''tags'' \<and> values \<noteq> []"
      and "\<forall>(key, values) \<in> set opts.
             toLower key = ''tags'' \<and> values \<noteq> [] \<longrightarrow> last values = []"
    using extractOpts_range_tags [of toLower no_opts opts r] that
    by (simp add: extractOpts_def)
  have absent: "opt_tags r = None"
    if "extractOpts toLower opts = Inr r"
      and none: "\<forall>(key, values) \<in> set opts. toLower key \<noteq> ''tags''"
  proof -
    from none have "\<forall>(key, values) \<in> set opts.
        toLower key = ''tags'' \<and> values \<noteq> [] \<longrightarrow> last values = []"
      and "\<not> (\<exists>(key, values) \<in> set opts. toLower key = ''tags'' \<and> values \<noteq> [])"
      by auto
    with extractOpts_range_tags [of toLower no_opts opts r] that(1) show ?thesis
      by (simp add: extractOpts_def no_opts_def)
  qed
  from present absent show ?thesis
    by simp
qed

theorem empty_tags_option_witness:
  "Build ascii_ToLower (\<lambda>cfg. None)
      \<lparr>Host = ''127.0.0.1:8500'', Path = ''/web'', Query = [(''tags'', [[]])]\<rparr> =
     Inr \<lparr>res = \<lparr>ctxDone = False, wgStop = 1, resolveNow = 0, tags = Some [[]],
                 service = ''web'', healthFilter = healthFilterOnlyHealthy\<rparr>,
          watch = watcher_init\<rparr>
   \<and> Build ascii_ToLower (\<lambda>cfg. None)
      \<lparr>Host = ''127.0.0.1:8500'', Path = ''/web'', Query = []\<rparr> =
     Inr \<lparr>res = \<lparr>ctxDone = False, wgStop = 1, resolveNow = 0, tags = None,
                 service = ''web'', healthFilter = healthFilterOnlyHealthy\<rparr>,
          watch = watcher_init\<rparr>"
proof -
  have lower: "ascii_ToLower ''tags'' = ''tags''"
    by code_simp
  let ?r = "no_opts\<lparr>opt_tags := Some [[]]\<rparr>"
  have parsed: "extractOpts ascii_ToLower [(''tags'', [[]])] = Inr ?r"
    and omitted: "extractOpts ascii_ToLower [] = Inr no_opts"
    by (simp_all add: extractOpts_def lower)
  have "opt_tags ?r = Some [[]]"
    by (rule empty_tags_option
          [of ascii_ToLower "[(''tags'', [[]])]" ?r, THEN conjunct1, THEN mp])
      (simp add: parsed lower)
  moreover have "opt_tags no_opts = None"
    by (rule empty_tags_option
          [of ascii_ToLower "[]" no_opts, THEN conjunct2, THEN conjunct1, THEN mp])
      (simp add: omitted)
  ultimately show ?thesis
    using parsed omitted
    by (simp add: Build_def parseEndpoint_def TrimPrefix_slash_def newConsulResolver_def
        start_def no_opts_def)
qed

end
